theory Spec2Isabelle
  imports Main "HOL-Library.Word" "HOL-Library.Sublist"
begin

section \<open>Text and bytes\<close>

text \<open>
  A Python \<open>str\<close> is a sequence of Unicode code points and a \<open>bytes\<close> object a sequence
  of octets. Code points are natural numbers here (the decoder below only produces scalar
  values), octets are 8-bit words.
\<close>

type_synonym codepoint = nat
type_synonym pystr = "codepoint list"
type_synonym byte = "8 word"

text \<open>An ASCII literal of the source, as text.\<close>

definition str :: "string \<Rightarrow> pystr" where
  "str s = map of_char s"

section \<open>Regular expressions: \<open>re.search(pattern, data, re.IGNORECASE)\<close>\<close>

text \<open>
  The fragment of Python's pattern language that \<open>SUSPICIOUS_PATTERNS\<close> uses: literal
  characters, \<open>.\<close>, concatenation, alternation \<open>|\<close> and the star. Groups only capture, which
  is invisible in the truth value of \<open>re.search\<close>. \<open>Zero\<close> (no match) and \<open>Eps\<close> (the
  empty match) are the neutral elements the matcher needs.
\<close>

datatype regex =
    Zero
  | Eps
  | Lit codepoint
  | Dot
  | Seq regex regex
  | Alt regex regex
  | Star regex

text \<open>
  Under \<open>re.IGNORECASE\<close> a literal ASCII letter of a \<open>str\<close> pattern matches its lower and
  upper case form and, as the \<open>re\<close> documentation lists, four non-ASCII letters: U+0130
  and U+0131 match \<open>i\<close>, U+017F matches \<open>s\<close> and U+212A matches \<open>k\<close>. A literal
  that is no letter matches itself only. All configured patterns are ASCII.
\<close>

definition ascii_lower :: "codepoint \<Rightarrow> codepoint" where
  "ascii_lower c = (if 65 \<le> c \<and> c \<le> 90 then c + 32 else c)"

definition ignorecase_eq :: "codepoint \<Rightarrow> codepoint \<Rightarrow> bool" where
  "ignorecase_eq p x =
     (let lo = ascii_lower p in
      if 97 \<le> lo \<and> lo \<le> 122
      then x = lo \<or> x + 32 = lo
           \<or> (lo = 105 \<and> (x = 304 \<or> x = 305))
           \<or> (lo = 115 \<and> x = 383)
           \<or> (lo = 107 \<and> x = 8490)
      else x = p)"

text \<open>\<open>.\<close> matches every character but the newline (the patterns do not set \<open>re.DOTALL\<close>).\<close>

definition dot_matches :: "codepoint \<Rightarrow> bool" where
  "dot_matches x = (x \<noteq> 10)"

text \<open>The matcher: derivatives of the pattern by the characters of the text.\<close>

fun nullable :: "regex \<Rightarrow> bool" where
  "nullable Zero = False"
| "nullable Eps = True"
| "nullable (Lit p) = False"
| "nullable Dot = False"
| "nullable (Seq r s) = (nullable r \<and> nullable s)"
| "nullable (Alt r s) = (nullable r \<or> nullable s)"
| "nullable (Star r) = True"

fun deriv :: "codepoint \<Rightarrow> regex \<Rightarrow> regex" where
  "deriv x Zero = Zero"
| "deriv x Eps = Zero"
| "deriv x (Lit p) = (if ignorecase_eq p x then Eps else Zero)"
| "deriv x Dot = (if dot_matches x then Eps else Zero)"
| "deriv x (Seq r s) =
     (if nullable r then Alt (Seq (deriv x r) s) (deriv x s) else Seq (deriv x r) s)"
| "deriv x (Alt r s) = Alt (deriv x r) (deriv x s)"
| "deriv x (Star r) = Seq (deriv x r) (Star r)"

text \<open>\<open>re.match\<close>: some prefix of the text matches the pattern.\<close>

fun re_match :: "regex \<Rightarrow> pystr \<Rightarrow> bool" where
  "re_match r [] = nullable r"
| "re_match r (x # xs) = (nullable r \<or> re_match (deriv x r) xs)"

text \<open>\<open>re.search\<close>: the pattern matches at some position of the text, the end included.\<close>

fun re_search :: "regex \<Rightarrow> pystr \<Rightarrow> bool" where
  "re_search r [] = re_match r []"
| "re_search r (x # xs) = (re_match r (x # xs) \<or> re_search r xs)"

subsection \<open>The language of a pattern\<close>

inductive_set star :: "pystr set \<Rightarrow> pystr set" for A :: "pystr set" where
  star_nil: "[] \<in> star A"
| star_app: "u \<in> A \<Longrightarrow> v \<in> star A \<Longrightarrow> u @ v \<in> star A"

fun lang :: "regex \<Rightarrow> pystr set" where
  "lang Zero = {}"
| "lang Eps = {[]}"
| "lang (Lit p) = {[x] | x. ignorecase_eq p x}"
| "lang Dot = {[x] | x. dot_matches x}"
| "lang (Seq r s) = {u @ v | u v. u \<in> lang r \<and> v \<in> lang s}"
| "lang (Alt r s) = lang r \<union> lang s"
| "lang (Star r) = star (lang r)"

text \<open>A text contains a match of a pattern: one of its substrings is in the language.\<close>

definition contains_match :: "regex \<Rightarrow> pystr \<Rightarrow> bool" where
  "contains_match r t = (\<exists>u v w. t = u @ v @ w \<and> v \<in> lang r)"

section \<open>The classifier\<close>

text \<open>A word of literals, and the alternation of a non-empty list of words \<open>(w1|...|wn)\<close>.\<close>

fun word :: "pystr \<Rightarrow> regex" where
  "word [] = Eps"
| "word (c # cs) = Seq (Lit c) (word cs)"

fun alts :: "regex list \<Rightarrow> regex" where
  "alts [] = Zero"
| "alts [r] = r"
| "alts (r # rs) = Alt r (alts rs)"

definition one_of :: "string list \<Rightarrow> regex" where
  "one_of ws = alts (map (\<lambda>w. word (str w)) ws)"

text \<open>
  \<^verbatim>\<open>
  SUSPICIOUS_PATTERNS = [
      r"(select|union|insert|drop|delete|update).*",
      r"(cmd|powershell|bash|sh).*",
      r"(\.\./|\%2e\%2e/)",
      r"(wget|curl|nc|ncat|telnet).*",
  ]\<close>
\<close>

definition sql_keywords :: "string list" where
  "sql_keywords = [''select'', ''union'', ''insert'', ''drop'', ''delete'', ''update'']"

definition shell_keywords :: "string list" where
  "shell_keywords = [''cmd'', ''powershell'', ''bash'', ''sh'']"

definition traversal_keywords :: "string list" where
  "traversal_keywords = [''../'', ''%2e%2e/'']"

definition tool_keywords :: "string list" where
  "tool_keywords = [''wget'', ''curl'', ''nc'', ''ncat'', ''telnet'']"

definition SUSPICIOUS_PATTERNS :: "regex list" where
  "SUSPICIOUS_PATTERNS =
     [Seq (one_of sql_keywords) (Star Dot),
      Seq (one_of shell_keywords) (Star Dot),
      one_of traversal_keywords,
      Seq (one_of tool_keywords) (Star Dot)]"

text \<open>
  \<^verbatim>\<open>
  def is_suspicious(data):
      for pattern in SUSPICIOUS_PATTERNS:
          if re.search(pattern, data, re.IGNORECASE):
              return True
      return False\<close>
  The loop over the patterns, with the list as an argument.
\<close>

fun any_pattern :: "regex list \<Rightarrow> pystr \<Rightarrow> bool" where
  "any_pattern [] data = False"
| "any_pattern (pattern # rest) data =
     (if re_search pattern data then True else any_pattern rest data)"

definition is_suspicious :: "pystr \<Rightarrow> bool" where
  "is_suspicious data = any_pattern SUSPICIOUS_PATTERNS data"

text \<open>The number of \<open>re.search\<close> calls the loop makes before it returns.\<close>

fun searches_made :: "regex list \<Rightarrow> pystr \<Rightarrow> nat" where
  "searches_made [] data = 0"
| "searches_made (pattern # rest) data =
     (if re_search pattern data then 1 else 1 + searches_made rest data)"

text \<open>A text that is a keyword up to the case of its letters.\<close>

definition same_ignoring_case :: "string \<Rightarrow> pystr \<Rightarrow> bool" where
  "same_ignoring_case kw v = list_all2 ignorecase_eq (str kw) v"

section \<open>Outcomes of calls\<close>

text \<open>
  A call of the standard library returns, raises, or blocks for ever. The exception
  classes are the ones the calls of the source can raise.
\<close>

datatype exn =
    ConnectionResetError
  | SocketTimeout
  | RequestsConnectionError
  | RequestsTimeout
  | JSONDecodeError
  | AttributeError
  | UnicodeDecodeError
  | OSError
  | OperationalError
  | InterfaceError

datatype 'a outcome = Returns 'a | Raises exn | Blocks

section \<open>Capturing the payload: \<open>client.recv(2048).decode(errors='ignore').strip()\<close>\<close>

text \<open>
  What the remote peer does after connecting: it sends bytes (none when it closes its side
  at once), resets the connection, or keeps the connection open and sends nothing.
\<close>

datatype peer = Sends "byte list" | Resets | Silent

text \<open>
  \<open>sock.recv(bufsize)\<close> on a socket whose timeout is \<open>timeout\<close> (\<open>None\<close>: a blocking
  socket, Python's default).
\<close>

definition recv :: "nat option \<Rightarrow> nat \<Rightarrow> peer \<Rightarrow> byte list outcome" where
  "recv timeout bufsize p =
     (case p of
        Sends bs \<Rightarrow> Returns (take bufsize bs)
      | Resets \<Rightarrow> Raises ConnectionResetError
      | Silent \<Rightarrow> (case timeout of None \<Rightarrow> Blocks | Some t \<Rightarrow> Raises SocketTimeout))"

text \<open>
  The source never calls \<open>settimeout\<close> or \<open>setdefaulttimeout\<close>: the accepted socket
  is blocking.
\<close>

definition client_timeout :: "nat option" where
  "client_timeout = None"

subsection \<open>UTF-8 decoding\<close>

definition is_continuation :: "byte \<Rightarrow> bool" where
  "is_continuation b = (0x80 \<le> b \<and> b < 0xC0)"

text \<open>
  The first step of the decoder of \<open>bytes.decode\<close> (UTF-8 is its default encoding), on
  the byte \<open>b0\<close> and the bytes after it: \<open>Some c\<close> for a well-formed sequence that
  encodes \<open>c\<close>, \<open>None\<close> for an error the decoder reports to its error handler, and the
  number of bytes the step covers. An invalid start byte is an error of one byte; an
  invalid continuation byte ends the error before it; a sequence that the end of the input
  truncates is one error, up to the end.
\<close>

definition utf8_first :: "byte \<Rightarrow> byte list \<Rightarrow> codepoint option \<times> nat" where
  "utf8_first b0 rest =
     (if b0 < 0x80 then (Some (unat b0), 1)
      else if b0 < 0xC2 then (None, 1)
      else if b0 < 0xE0 then
        (case rest of
           [] \<Rightarrow> (None, 1)
         | b1 # r1 \<Rightarrow>
             if is_continuation b1
             then (Some (unat b0 * 64 + unat b1 - (0xC0 * 64 + 0x80)), 2)
             else (None, 1))
      else if b0 < 0xF0 then
        (case rest of
           [] \<Rightarrow> (None, 1)
         | b1 # r1 \<Rightarrow>
             if \<not> is_continuation b1 \<or> (b0 = 0xE0 \<and> b1 < 0xA0) \<or> (b0 = 0xED \<and> 0xA0 \<le> b1)
             then (None, 1)
             else
               (case r1 of
                  [] \<Rightarrow> (None, 2)
                | b2 # r2 \<Rightarrow>
                    if is_continuation b2
                    then (Some (unat b0 * 4096 + unat b1 * 64 + unat b2
                                - (0xE0 * 4096 + 0x80 * 64 + 0x80)), 3)
                    else (None, 2)))
      else if b0 < 0xF5 then
        (case rest of
           [] \<Rightarrow> (None, 1)
         | b1 # r1 \<Rightarrow>
             if \<not> is_continuation b1 \<or> (b0 = 0xF0 \<and> b1 < 0x90) \<or> (b0 = 0xF4 \<and> 0x90 \<le> b1)
             then (None, 1)
             else
               (case r1 of
                  [] \<Rightarrow> (None, 2)
                | b2 # r2 \<Rightarrow>
                    if \<not> is_continuation b2 then (None, 2)
                    else
                      (case r2 of
                         [] \<Rightarrow> (None, 3)
                       | b3 # r3 \<Rightarrow>
                           if is_continuation b3
                           then (Some (unat b0 * 262144 + unat b1 * 4096 + unat b2 * 64 + unat b3
                                       - (0xF0 * 262144 + 0x80 * 4096 + 0x80 * 64 + 0x80)), 4)
                           else (None, 3))))
      else (None, 1))"

text \<open>The decoder: step by step, each step resuming after the bytes the one before covers.\<close>

fun utf8_units :: "byte list \<Rightarrow> codepoint option list" where
  "utf8_units [] = []"
| "utf8_units (b0 # rest) =
     fst (utf8_first b0 rest) # utf8_units (drop (snd (utf8_first b0 rest) - 1) rest)"

text \<open>
  The error handlers of \<open>decode\<close>: \<open>'strict'\<close> raises at the first error, \<open>'ignore'\<close>
  leaves the malformed bytes out, \<open>'replace'\<close> puts U+FFFD in their place.
\<close>

datatype error_handler = Strict | Ignore | Replace

definition REPLACEMENT_CHARACTER :: codepoint where
  "REPLACEMENT_CHARACTER = 0xFFFD"

definition decode :: "error_handler \<Rightarrow> byte list \<Rightarrow> exn + pystr" where
  "decode errors bs =
     (case errors of
        Strict \<Rightarrow>
          (case those (utf8_units bs) of None \<Rightarrow> Inl UnicodeDecodeError | Some t \<Rightarrow> Inr t)
      | Ignore \<Rightarrow> Inr (concat (map (\<lambda>u. case u of None \<Rightarrow> [] | Some c \<Rightarrow> [c]) (utf8_units bs)))
      | Replace \<Rightarrow>
          Inr (map (\<lambda>u. case u of None \<Rightarrow> REPLACEMENT_CHARACTER | Some c \<Rightarrow> c) (utf8_units bs)))"

subsection \<open>\<open>str.strip()\<close>\<close>

text \<open>The characters \<open>str.isspace\<close> accepts, which \<open>strip()\<close> removes at both ends.\<close>

definition is_whitespace :: "codepoint \<Rightarrow> bool" where
  "is_whitespace c =
     ((0x09 \<le> c \<and> c \<le> 0x0D) \<or> (0x1C \<le> c \<and> c \<le> 0x20) \<or> c = 0x85 \<or> c = 0xA0
      \<or> c = 0x1680 \<or> (0x2000 \<le> c \<and> c \<le> 0x200A) \<or> c = 0x2028 \<or> c = 0x2029
      \<or> c = 0x202F \<or> c = 0x205F \<or> c = 0x3000)"

definition strip :: "pystr \<Rightarrow> pystr" where
  "strip t = rev (dropWhile is_whitespace (rev (dropWhile is_whitespace t)))"

text \<open>
  The payload of a connection, line 114 of the source:
  \<open>data = client.recv(2048).decode(errors='ignore').strip()\<close>.
\<close>

definition capture_payload :: "peer \<Rightarrow> pystr outcome" where
  "capture_payload p =
     (case recv client_timeout 2048 p of
        Blocks \<Rightarrow> Blocks
      | Raises e \<Rightarrow> Raises e
      | Returns bs \<Rightarrow>
          (case decode Ignore bs of
             Inl e \<Rightarrow> Raises e
           | Inr t \<Rightarrow> Returns (strip t)))"

section \<open>The enricher\<close>

text \<open>JSON values, as \<open>Response.json()\<close> returns them (numbers are integers here).\<close>

datatype json =
    JNull
  | JBool bool
  | JNum int
  | JStr pystr
  | JArr "json list"
  | JObj "(pystr \<times> json) list"

text \<open>
  What the lookup service does with a request: it answers with a status code and a body
  (\<open>None\<close>: the body is not JSON; the items of an object have distinct keys), it cannot be
  reached, or it accepts the request and never answers.
\<close>

datatype lookup_service = Answers nat "json option" | Unreachable | NoAnswer

record response =
  status_code :: nat
  body :: "json option"

text \<open>\<open>requests.get(url, timeout=timeout)\<close>; without a timeout the call waits for ever.\<close>

definition requests_get :: "string \<Rightarrow> nat option \<Rightarrow> lookup_service \<Rightarrow> response outcome" where
  "requests_get url timeout svc =
     (case svc of
        Answers st b \<Rightarrow> Returns \<lparr>status_code = st, body = b\<rparr>
      | Unreachable \<Rightarrow> Raises RequestsConnectionError
      | NoAnswer \<Rightarrow> (case timeout of None \<Rightarrow> Blocks | Some t \<Rightarrow> Raises RequestsTimeout))"

text \<open>\<open>Response.json()\<close> raises when the body is not JSON; it does not look at the status.\<close>

definition response_json :: "response \<Rightarrow> json outcome" where
  "response_json r = (case body r of None \<Rightarrow> Raises JSONDecodeError | Some j \<Rightarrow> Returns j)"

text \<open>\<open>res.get(key, default)\<close>: only a dict has the method.\<close>

definition dict_get :: "json \<Rightarrow> string \<Rightarrow> json \<Rightarrow> json outcome" where
  "dict_get res key dflt =
     (case res of
        JObj items \<Rightarrow> Returns (case map_of items (str key) of None \<Rightarrow> dflt | Some v \<Rightarrow> v)
      | _ \<Rightarrow> Raises AttributeError)"

record geo =
  country :: json
  city :: json
  org :: json

definition NA :: json where
  "NA = JStr (str ''N/A'')"

definition sentinel :: geo where
  "sentinel = \<lparr>country = NA, city = NA, org = NA\<rparr>"

text \<open>
  \<^verbatim>\<open>
  def get_geo(ip):
      try:
          res = requests.get(f"http://ip-api.com/json/{ip}").json()
          return {
              "country": res.get("country", "N/A"),
              "city": res.get("city", "N/A"),
              "org": res.get("org", "N/A")
          }
      except:
          return {"country": "N/A", "city": "N/A", "org": "N/A"}\<close>
  The bare \<open>except\<close> catches every exception; a call that blocks stays blocked.
\<close>

definition get_geo :: "string \<Rightarrow> lookup_service \<Rightarrow> geo outcome" where
  "get_geo ip svc =
     (case requests_get (''http://ip-api.com/json/'' @ ip) None svc of
        Blocks \<Rightarrow> Blocks
      | Raises e \<Rightarrow> Returns sentinel
      | Returns resp \<Rightarrow>
          (case response_json resp of
             Returns res \<Rightarrow>
               (case (dict_get res ''country'' NA, dict_get res ''city'' NA, dict_get res ''org'' NA) of
                  (Returns c, Returns ci, Returns og) \<Rightarrow> Returns \<lparr>country = c, city = ci, org = og\<rparr>
                | _ \<Rightarrow> Returns sentinel)
           | _ \<Rightarrow> Returns sentinel))"

section \<open>The event store\<close>

text \<open>A row of the table \<open>logs\<close>, and the database file: its tables and the rows of \<open>logs\<close>.\<close>

record row =
  row_id :: nat
  row_timestamp :: string
  row_ip :: string
  row_port :: nat
  row_data :: pystr
  row_country :: json
  row_city :: json
  row_org :: json
  row_suspicious :: int

record db =
  tables :: "string list"
  logs :: "row list"

text \<open>\<open>sqlite3.connect\<close> opens the file, and creates an empty database when there is none.\<close>

definition sqlite_connect :: "db option \<Rightarrow> db" where
  "sqlite_connect f = (case f of None \<Rightarrow> \<lparr>tables = [], logs = []\<rparr> | Some d \<Rightarrow> d)"

text \<open>\<open>CREATE TABLE\<close> fails when the table exists.\<close>

definition create_table :: "string \<Rightarrow> db \<Rightarrow> exn + db" where
  "create_table name d =
     (if name \<in> set (tables d) then Inl OperationalError
      else Inr (d\<lparr>tables := tables d @ [name]\<rparr>))"

text \<open>
  \<^verbatim>\<open>
  def setup_db():
      if not os.path.exists(DB_FILE):
          conn = sqlite3.connect(DB_FILE)
          c = conn.cursor()
          c.execute(CREATE TABLE logs (id INTEGER PRIMARY KEY AUTOINCREMENT, ...))
          conn.commit()
          conn.close()\<close>
  The state is the file \<open>DB_FILE\<close>: \<open>None\<close> when it does not exist.
\<close>

definition setup_db :: "db option \<Rightarrow> exn + db option" where
  "setup_db f =
     (case f of
        None \<Rightarrow>
          (case create_table ''logs'' (sqlite_connect None) of
             Inl e \<Rightarrow> Inl e
           | Inr d \<Rightarrow> Inr (Some d))
      | Some d \<Rightarrow> Inr (Some d))"


text \<open>The entry \<open>log_event\<close> appends to the JSON log file.\<close>

record log_entry =
  timestamp :: string
  ip :: string
  port :: nat
  data :: pystr
  geo :: geo
  suspicious :: bool

text \<open>The values \<open>sqlite3\<close> binds to a parameter: no list, no dict, integers of 64 bits.\<close>

fun bindable :: "json \<Rightarrow> bool" where
  "bindable (JArr xs) = False"
| "bindable (JObj items) = False"
| "bindable (JNum n) = (- (2 ^ 63) \<le> n \<and> n < 2 ^ 63)"
| "bindable j = True"

text \<open>\<open>AUTOINCREMENT\<close>: one more than the largest id the table has had (no row is deleted).\<close>

definition next_id :: "row list \<Rightarrow> nat" where
  "next_id rows = Suc (foldr max (map row_id rows) 0)"

text \<open>
  The world a handler acts on: the two sinks, the console, the bytes sent to clients and
  the sockets closed.
\<close>

type_synonym addr = "string \<times> nat"

datatype notice =
    Started string nat
  | Blocked string
  | Ignored string
  | New string nat
  | Location json json json
  | Data pystr
  | SuspiciousActivity
  | Error exn

record world =
  json_log :: "log_entry list"
  db_file :: "db option"
  console :: "notice list"
  sent :: "(addr \<times> pystr) list"
  closed :: "addr list"

text \<open>
  An accepted connection, with what its environment does while it is handled: the peer,
  the lookup service, the clock, whether the JSON log file can be opened and written,
  whether the database file can be opened, whether the peer still takes a reply.
\<close>

record connection =
  addr :: addr
  peer :: peer
  lookup :: lookup_service
  clock :: string
  json_writable :: bool
  db_opens :: bool
  send_ok :: bool

text \<open>
  \<^verbatim>\<open>
  def log_event(addr, data, geo, suspicious):
      log_entry = {"timestamp": datetime.datetime.now().isoformat(), "ip": addr[0],
                   "port": addr[1], "data": data, "geo": geo, "suspicious": suspicious}
      with open(JSON_LOG_FILE, 'a') as f:
          f.write(json.dumps(log_entry) + '\n')
      conn = sqlite3.connect(DB_FILE)
      c = conn.cursor()
      c.execute("INSERT INTO logs (timestamp, ip, port, data, country, city, org, suspicious)
                 VALUES (?, ?, ?, ?, ?, ?, ?, ?)",
                (log_entry["timestamp"], addr[0], addr[1], data, geo["country"], geo["city"],
                 geo["org"], int(suspicious)))
      conn.commit()
      conn.close()\<close>
  The result is the exception that leaves the function, if any, and the world after it.
\<close>

definition log_event ::
  "connection \<Rightarrow> addr \<Rightarrow> pystr \<Rightarrow> geo \<Rightarrow> bool \<Rightarrow> world \<Rightarrow> exn option \<times> world" where
  "log_event env a d g s w =
     (let entry = \<lparr>timestamp = clock env, ip = fst a, port = snd a, data = d, geo = g,
                    suspicious = s\<rparr>
      in if \<not> json_writable env then (Some OSError, w)
         else
           let w1 = w\<lparr>json_log := json_log w @ [entry]\<rparr>
           in if \<not> db_opens env then (Some OperationalError, w1)
              else
                let conn = sqlite_connect (db_file w1)
                in if ''logs'' \<notin> set (tables conn)
                   then (Some OperationalError, w1\<lparr>db_file := Some conn\<rparr>)
                   else if \<not> (bindable (country g) \<and> bindable (city g) \<and> bindable (org g))
                   then (Some InterfaceError, w1\<lparr>db_file := Some conn\<rparr>)
                   else
                     (None,
                      w1\<lparr>db_file := Some (conn\<lparr>logs := logs conn @
                        [\<lparr>row_id = next_id (logs conn), row_timestamp = timestamp entry,
                          row_ip = fst a, row_port = snd a, row_data = d,
                          row_country = country g, row_city = city g, row_org = org g,
                          row_suspicious = (if s then 1 else 0)\<rparr>]\<rparr>)\<rparr>))"

section \<open>The connection handler and the listener\<close>

record config =
  HOST :: string
  PORT :: nat
  WHITELIST_IPS :: "string list"
  BLACKLIST_IPS :: "string list"

text \<open>The configuration the source ships.\<close>

definition shipped_config :: config where
  "shipped_config = \<lparr>HOST = ''0.0.0.0'', PORT = 9999, WHITELIST_IPS = [], BLACKLIST_IPS = []\<rparr>"

definition print :: "notice \<Rightarrow> world \<Rightarrow> world" where
  "print n w = w\<lparr>console := console w @ [n]\<rparr>"

definition close :: "addr \<Rightarrow> world \<Rightarrow> world" where
  "close a w = w\<lparr>closed := closed w @ [a]\<rparr>"

text \<open>
  \<^verbatim>\<open>
  def send_fake_response(client_socket):
      try:
          fake = "[root@honeypot /]$ command not found\n"
          client_socket.send(fake.encode())
      except:
          pass\<close>
\<close>

definition fake :: pystr where
  "fake = str ''[root@honeypot /]$ command not found'' @ [10]"

definition send_fake_response :: "connection \<Rightarrow> world \<Rightarrow> world" where
  "send_fake_response c w = (if send_ok c then w\<lparr>sent := sent w @ [(addr c, fake)]\<rparr> else w)"

text \<open>
  A run either gets through (\<open>Finished\<close>) or is blocked for ever inside a call
  (\<open>Stuck\<close>), or an exception ends the process (\<open>Crashed\<close>); each carries the world
  as it is then.
\<close>

datatype run = Finished world | Stuck world | Crashed exn world

text \<open>
  The body of the accept loop of \<open>start_honeypot\<close>, for one accepted connection:
  \<^verbatim>\<open>
  if addr[0] in BLACKLIST_IPS:
      print(colored(f"[BLOCKED] Connection from blacklisted IP {addr[0]}", "red"))
      client.close()
      continue
  elif addr[0] in WHITELIST_IPS:
      print(colored(f"[IGNORED] Whitelisted IP {addr[0]}", "cyan"))
      client.close()
      continue
  try:
      data = client.recv(2048).decode(errors='ignore').strip()
      geo = get_geo(addr[0])
      suspicious = is_suspicious(data)
      log_event(addr, data, geo, suspicious)
      print(...[NEW]...); print(...Location...); print(...Data...)
      if suspicious:
          print(colored(" Suspicious activity detected!", "red", attrs=["bold"]))
          send_fake_response(client)
  except Exception as e:
      print(colored(f"[ERROR] {e}", "red"))
  finally:
      client.close()\<close>
  The console takes every text that is printed.
\<close>

definition failed :: "connection \<Rightarrow> exn \<Rightarrow> world \<Rightarrow> run" where
  "failed c e w = Finished (close (addr c) (print (Error e) w))"

definition handle_connection :: "config \<Rightarrow> connection \<Rightarrow> world \<Rightarrow> run" where
  "handle_connection cfg c w =
     (if fst (addr c) \<in> set (BLACKLIST_IPS cfg)
      then Finished (close (addr c) (print (Blocked (fst (addr c))) w))
      else if fst (addr c) \<in> set (WHITELIST_IPS cfg)
      then Finished (close (addr c) (print (Ignored (fst (addr c))) w))
      else
        (case capture_payload (peer c) of
           Blocks \<Rightarrow> Stuck w
         | Raises e \<Rightarrow> failed c e w
         | Returns d \<Rightarrow>
             (case get_geo (fst (addr c)) (lookup c) of
                Blocks \<Rightarrow> Stuck w
              | Raises e \<Rightarrow> failed c e w
              | Returns g \<Rightarrow>
                  (case log_event c (addr c) d g (is_suspicious d) w of
                     (Some e, w1) \<Rightarrow> failed c e w1
                   | (None, w1) \<Rightarrow>
                       (let w2 = print (Data d)
                                  (print (Location (city g) (country g) (org g))
                                    (print (New (fst (addr c)) (snd (addr c))) w1))
                        in Finished (close (addr c)
                             (if is_suspicious d
                              then send_fake_response c (print SuspiciousActivity w2)
                              else w2)))))))"

text \<open>
  The accept loop, \<open>while True: client, addr = server.accept(); ...\<close>, over the
  connections that arrive, in their order: the body runs in the loop itself, and the next
  \<open>accept\<close> comes after it. \<open>Finished\<close>: the loop waits in \<open>accept\<close> for more.
\<close>

fun accept_loop :: "config \<Rightarrow> connection list \<Rightarrow> world \<Rightarrow> run" where
  "accept_loop cfg [] w = Finished w"
| "accept_loop cfg (c # cs) w =
     (case handle_connection cfg c w of
        Finished w' \<Rightarrow> accept_loop cfg cs w'
      | Stuck w' \<Rightarrow> Stuck w'
      | Crashed e w' \<Rightarrow> Crashed e w')"

text \<open>\<open>start_honeypot\<close>: \<open>setup_db()\<close>, the start notice, then the accept loop.\<close>

definition start_honeypot :: "config \<Rightarrow> connection list \<Rightarrow> world \<Rightarrow> run" where
  "start_honeypot cfg cs w =
     (case setup_db (db_file w) of
        Inl e \<Rightarrow> Crashed e w
      | Inr f \<Rightarrow> accept_loop cfg cs (print (Started (HOST cfg) (PORT cfg)) (w\<lparr>db_file := f\<rparr>)))"

section \<open>Example inputs\<close>

text \<open>
  The world after \<open>setup_db\<close> on a machine without the files, and a connection from a
  peer with a given behaviour, whose environment does not fail; the lookup service is
  out of reach.
\<close>

definition fresh_world :: world where
  "fresh_world =
     \<lparr>json_log = [], db_file = Some \<lparr>tables = [''logs''], logs = []\<rparr>, console = [],
      sent = [], closed = []\<rparr>"

definition connection_from :: "string \<Rightarrow> peer \<Rightarrow> connection" where
  "connection_from a p =
     \<lparr>addr = (a, 51234), peer = p, lookup = Unreachable, clock = ''2024-05-01T12:00:00'',
      json_writable = True, db_opens = True, send_ok = True\<rparr>"

section \<open>Properties of the classifier\<close>

subsection \<open>The matcher decides the language\<close>

lemma nullable_iff: "nullable r \<longleftrightarrow> [] \<in> lang r"
  by (induction r) (auto intro: star.intros)

lemma star_cons_split:
  assumes "x # w \<in> star A"
  shows "\<exists>u v. w = u @ v \<and> x # u \<in> A \<and> v \<in> star A"
  using assms
proof (induction "x # w" arbitrary: w rule: star.induct)
  case (star_app u v)
  show ?case
  proof (cases u)
    case Nil
    with star_app show ?thesis by simp
  next
    case (Cons y u')
    with star_app show ?thesis by auto
  qed
qed

lemma lang_Seq_Cons:
  "x # w \<in> lang (Seq r s) \<longleftrightarrow>
     ([] \<in> lang r \<and> x # w \<in> lang s) \<or> (\<exists>u v. w = u @ v \<and> x # u \<in> lang r \<and> v \<in> lang s)"
proof
  assume "x # w \<in> lang (Seq r s)"
  then obtain u v where uv: "x # w = u @ v" "u \<in> lang r" "v \<in> lang s" by auto
  show "([] \<in> lang r \<and> x # w \<in> lang s) \<or> (\<exists>u v. w = u @ v \<and> x # u \<in> lang r \<and> v \<in> lang s)"
  proof (cases u)
    case Nil
    with uv show ?thesis by simp
  next
    case (Cons y u')
    with uv have "w = u' @ v \<and> x # u' \<in> lang r \<and> v \<in> lang s" by simp
    then show ?thesis by blast
  qed
next
  assume "([] \<in> lang r \<and> x # w \<in> lang s) \<or> (\<exists>u v. w = u @ v \<and> x # u \<in> lang r \<and> v \<in> lang s)"
  then show "x # w \<in> lang (Seq r s)"
  proof
    assume a: "[] \<in> lang r \<and> x # w \<in> lang s"
    have "x # w = [] @ (x # w)" by simp
    with a have "\<exists>u v. x # w = u @ v \<and> u \<in> lang r \<and> v \<in> lang s" by blast
    then show ?thesis by simp
  next
    assume "\<exists>u v. w = u @ v \<and> x # u \<in> lang r \<and> v \<in> lang s"
    then obtain u v where uv: "w = u @ v" "x # u \<in> lang r" "v \<in> lang s" by blast
    then have "x # w = (x # u) @ v" by simp
    with uv have "\<exists>u v. x # w = u @ v \<and> u \<in> lang r \<and> v \<in> lang s" by blast
    then show ?thesis by simp
  qed
qed

lemma lang_deriv: "w \<in> lang (deriv x r) \<longleftrightarrow> x # w \<in> lang r"
proof (induction r arbitrary: w)
  case Zero
  show ?case by simp
next
  case Eps
  show ?case by simp
next
  case (Lit p)
  show ?case by simp
next
  case Dot
  show ?case by simp
next
  case (Alt r s)
  then show ?case by simp
next
  case (Seq r s)
  have "w \<in> lang (deriv x (Seq r s)) \<longleftrightarrow>
          (nullable r \<and> w \<in> lang (deriv x s)) \<or>
          (\<exists>u v. w = u @ v \<and> u \<in> lang (deriv x r) \<and> v \<in> lang s)"
    by (cases "nullable r") auto
  then show ?case
    by (simp only: Seq.IH lang_Seq_Cons nullable_iff)
next
  case (Star r)
  show ?case
  proof
    assume "w \<in> lang (deriv x (Star r))"
    then obtain u v where "w = u @ v" "u \<in> lang (deriv x r)" "v \<in> star (lang r)"
      by auto
    then have "w = u @ v" "x # u \<in> lang r" "v \<in> star (lang r)"
      using Star by simp_all
    then show "x # w \<in> lang (Star r)"
      using star_app [of "x # u" "lang r" v] by simp
  next
    assume "x # w \<in> lang (Star r)"
    then have "x # w \<in> star (lang r)" by simp
    then obtain u v where "w = u @ v" "x # u \<in> lang r" "v \<in> star (lang r)"
      using star_cons_split by blast
    then have "w = u @ v \<and> u \<in> lang (deriv x r) \<and> v \<in> lang (Star r)"
      using Star by simp
    then show "w \<in> lang (deriv x (Star r))" by auto
  qed
qed

lemma re_match_iff: "re_match r t \<longleftrightarrow> (\<exists>v w. t = v @ w \<and> v \<in> lang r)"
proof (induction t arbitrary: r)
  case Nil
  then show ?case by (simp add: nullable_iff)
next
  case (Cons x xs)
  show ?case
  proof
    assume "re_match r (x # xs)"
    then consider "nullable r" | "re_match (deriv x r) xs" by auto
    then show "\<exists>v w. x # xs = v @ w \<and> v \<in> lang r"
    proof cases
      case 1
      then show ?thesis by (auto simp: nullable_iff)
    next
      case 2
      then obtain v w where "xs = v @ w" "v \<in> lang (deriv x r)" using Cons by blast
      then have "x # xs = (x # v) @ w \<and> x # v \<in> lang r" by (simp add: lang_deriv)
      then show ?thesis by blast
    qed
  next
    assume "\<exists>v w. x # xs = v @ w \<and> v \<in> lang r"
    then obtain v w where vw: "x # xs = v @ w" "v \<in> lang r" by blast
    show "re_match r (x # xs)"
    proof (cases v)
      case Nil
      with vw show ?thesis by (auto simp: nullable_iff)
    next
      case (Cons y v')
      with vw have "xs = v' @ w" "v' \<in> lang (deriv x r)" by (simp_all add: lang_deriv)
      then have "re_match (deriv x r) xs" using Cons.IH by blast
      then show ?thesis by simp
    qed
  qed
qed

lemma re_search_iff: "re_search r t \<longleftrightarrow> contains_match r t"
proof (induction t)
  case Nil
  then show ?case by (simp add: contains_match_def nullable_iff)
next
  case (Cons x xs)
  show ?case
  proof
    assume "re_search r (x # xs)"
    then consider "re_match r (x # xs)" | "re_search r xs" by auto
    then show "contains_match r (x # xs)"
    proof cases
      case 1
      then obtain v w where "x # xs = v @ w" "v \<in> lang r" by (auto simp: re_match_iff)
      then have "x # xs = [] @ v @ w \<and> v \<in> lang r" by simp
      then show ?thesis unfolding contains_match_def by blast
    next
      case 2
      then obtain u v w where "xs = u @ v @ w" "v \<in> lang r"
        using Cons by (auto simp: contains_match_def)
      then have "x # xs = (x # u) @ v @ w \<and> v \<in> lang r" by simp
      then show ?thesis unfolding contains_match_def by blast
    qed
  next
    assume "contains_match r (x # xs)"
    then obtain u v w where uvw: "x # xs = u @ v @ w" "v \<in> lang r"
      by (auto simp: contains_match_def)
    show "re_search r (x # xs)"
    proof (cases u)
      case Nil
      with uvw have "re_match r (x # xs)" using re_match_iff by auto
      then show ?thesis by simp
    next
      case (Cons y u')
      with uvw have "contains_match r xs" by (auto simp: contains_match_def)
      then show ?thesis using Cons.IH by simp
    qed
  qed
qed

subsection \<open>The classifier\<close>

lemma any_pattern_iff: "any_pattern ps t \<longleftrightarrow> (\<exists>p\<in>set ps. re_search p t)"
  by (induction ps) auto

lemma any_pattern_first:
  assumes "\<forall>q\<in>set ps1. \<not> re_search q t" and "re_search p t"
  shows "any_pattern (ps1 @ p # ps2) t \<and> searches_made (ps1 @ p # ps2) t = length ps1 + 1"
  using assms by (induction ps1) auto

lemma not_suspicious_empty: "\<not> is_suspicious []"
  by code_simp

text \<open>
  Claim C1. \<open>is_suspicious\<close> returns true exactly for the texts in which one of the
  configured patterns, read case-insensitively, matches somewhere. The loop stops at the
  first rule that matches: when the rules before a matching rule do not match, the result
  is true after one \<open>re.search\<close> call per rule up to and including that rule, whatever
  rules follow. The empty payload is not suspicious.
\<close>

theorem is_suspicious_correct:
  "(is_suspicious t \<longleftrightarrow> (\<exists>p\<in>set SUSPICIOUS_PATTERNS. contains_match p t))
   \<and> (\<forall>ps1 p ps2. (\<forall>q\<in>set ps1. \<not> re_search q t) \<and> re_search p t \<longrightarrow>
         any_pattern (ps1 @ p # ps2) t
         \<and> searches_made (ps1 @ p # ps2) t = length ps1 + 1)
   \<and> \<not> is_suspicious []"
  using any_pattern_first not_suspicious_empty
  by (simp add: is_suspicious_def any_pattern_iff re_search_iff)

lemma curl_suspicious: "is_suspicious (str ''curl http://x'')"
  by code_simp

lemma hello_not_suspicious: "\<not> is_suspicious (str ''hello world'')"
  by code_simp

theorem is_suspicious_correct_witness:
  "(\<exists>p\<in>set SUSPICIOUS_PATTERNS. contains_match p (str ''curl http://x''))
   \<and> \<not> (\<exists>p\<in>set SUSPICIOUS_PATTERNS. contains_match p (str ''hello world''))"
  using is_suspicious_correct [of "str ''curl http://x''"]
    is_suspicious_correct [of "str ''hello world''"]
    curl_suspicious hello_not_suspicious
  by blast

subsection \<open>Keywords match anywhere in the text\<close>

lemma ignorecase_eq_refl: "ignorecase_eq c c"
  by (auto simp: ignorecase_eq_def ascii_lower_def Let_def)

lemma lang_SeqI: "u \<in> lang r \<Longrightarrow> v \<in> lang s \<Longrightarrow> u @ v \<in> lang (Seq r s)"
  by (simp del: append_eq_append_conv) blast

lemma word_lang: "list_all2 ignorecase_eq w v \<Longrightarrow> v \<in> lang (word w)"
proof (induction w v rule: list_all2_induct)
  case Nil
  show ?case by simp
next
  case (Cons c w x v)
  have "[x] \<in> lang (Lit c)" using Cons.hyps by simp
  then have "[x] @ v \<in> lang (Seq (Lit c) (word w))"
    using Cons.IH by (rule lang_SeqI)
  then show ?case by (simp only: word.simps append_Cons append_Nil)
qed

lemma alts_lang: "r \<in> set rs \<Longrightarrow> v \<in> lang r \<Longrightarrow> v \<in> lang (alts rs)"
  by (induction rs rule: alts.induct) auto

lemma one_of_lang:
  assumes "kw \<in> set ws" and "same_ignoring_case kw v"
  shows "v \<in> lang (one_of ws)"
proof -
  have "word (str kw) \<in> set (map (\<lambda>w. word (str w)) ws)" using assms(1) by simp
  moreover have "v \<in> lang (word (str kw))"
    using assms(2) by (simp add: same_ignoring_case_def word_lang)
  ultimately show ?thesis unfolding one_of_def by (rule alts_lang)
qed

lemma lang_Seq_Star: "v \<in> lang r \<Longrightarrow> v \<in> lang (Seq r (Star s))"
proof -
  assume "v \<in> lang r"
  moreover have "[] \<in> lang (Star s)" by (simp add: star_nil)
  ultimately have "v @ [] \<in> lang (Seq r (Star s))" by (rule lang_SeqI)
  then show ?thesis by (simp only: append_Nil2)
qed

lemma keyword_contains_match:
  assumes "kw \<in> set (sql_keywords @ shell_keywords @ traversal_keywords @ tool_keywords)"
    and "same_ignoring_case kw v"
  shows "\<exists>p\<in>set SUSPICIOUS_PATTERNS. v \<in> lang p"
proof -
  consider "kw \<in> set sql_keywords" | "kw \<in> set shell_keywords"
    | "kw \<in> set traversal_keywords" | "kw \<in> set tool_keywords"
    using assms(1) by auto
  then show ?thesis
  proof cases
    case 1
    then have "v \<in> lang (Seq (one_of sql_keywords) (Star Dot))"
      using assms(2) by (intro lang_Seq_Star one_of_lang)
    then show ?thesis by (auto simp: SUSPICIOUS_PATTERNS_def)
  next
    case 2
    then have "v \<in> lang (Seq (one_of shell_keywords) (Star Dot))"
      using assms(2) by (intro lang_Seq_Star one_of_lang)
    then show ?thesis by (auto simp: SUSPICIOUS_PATTERNS_def)
  next
    case 3
    then have "v \<in> lang (one_of traversal_keywords)"
      using assms(2) by (intro one_of_lang)
    then show ?thesis by (auto simp: SUSPICIOUS_PATTERNS_def)
  next
    case 4
    then have "v \<in> lang (Seq (one_of tool_keywords) (Star Dot))"
      using assms(2) by (intro lang_Seq_Star one_of_lang)
    then show ?thesis by (auto simp: SUSPICIOUS_PATTERNS_def)
  qed
qed

lemma keyword_anywhere_suspicious:
  assumes "kw \<in> set (sql_keywords @ shell_keywords @ traversal_keywords @ tool_keywords)"
    and "same_ignoring_case kw v"
  shows "is_suspicious (pre @ v @ post)"
proof -
  obtain p where "p \<in> set SUSPICIOUS_PATTERNS" "v \<in> lang p"
    using keyword_contains_match [OF assms] by blast
  then have "p \<in> set SUSPICIOUS_PATTERNS \<and> contains_match p (pre @ v @ post)"
    unfolding contains_match_def by blast
  then show ?thesis
    unfolding is_suspicious_def any_pattern_iff re_search_iff by blast
qed

section \<open>Properties of the payload capture\<close>










lemma capture_payload_Sends:
  "capture_payload (Sends bs)
     = Returns (strip (concat (map (\<lambda>u. case u of None \<Rightarrow> [] | Some c \<Rightarrow> [c])
         (utf8_units (take 2048 bs)))))"
  by (simp add: capture_payload_def recv_def decode_def client_timeout_def)





section \<open>Properties of the enricher\<close>

lemma get_geo_Unreachable: "get_geo a Unreachable = Returns sentinel"
  by (simp add: get_geo_def requests_get_def)

lemma get_geo_NoAnswer: "get_geo a NoAnswer = Blocks"
  by (simp add: get_geo_def requests_get_def)

lemma get_geo_not_json: "get_geo a (Answers st None) = Returns sentinel"
  by (simp add: get_geo_def requests_get_def response_json_def)

lemma get_geo_object:
  "get_geo a (Answers st (Some (JObj items)))
     = Returns \<lparr>country = (case map_of items (str ''country'') of None \<Rightarrow> NA | Some v \<Rightarrow> v),
                city = (case map_of items (str ''city'') of None \<Rightarrow> NA | Some v \<Rightarrow> v),
                org = (case map_of items (str ''org'') of None \<Rightarrow> NA | Some v \<Rightarrow> v)\<rparr>"
  by (simp add: get_geo_def requests_get_def response_json_def dict_get_def)

lemma get_geo_no_object:
  "\<forall>items. j \<noteq> JObj items \<Longrightarrow> get_geo a (Answers st (Some j)) = Returns sentinel"
  by (cases j) (simp_all add: get_geo_def requests_get_def response_json_def dict_get_def)

lemma get_geo_never_raises: "get_geo a svc \<noteq> Raises e"
proof (cases svc)
  case (Answers st b)
  show ?thesis
  proof (cases b)
    case None
    with Answers show ?thesis by (simp add: get_geo_not_json)
  next
    case (Some j)
    show ?thesis
    proof (cases "\<exists>items. j = JObj items")
      case True
      with Answers Some show ?thesis by (auto simp: get_geo_object)
    next
      case False
      then have "get_geo a (Answers st (Some j)) = Returns sentinel"
        by (intro get_geo_no_object) simp
      with Answers Some show ?thesis by simp
    qed
  qed
next
  case Unreachable
  then show ?thesis by (simp add: get_geo_Unreachable)
next
  case NoAnswer
  then show ?thesis by (simp add: get_geo_NoAnswer)
qed

text \<open>
  Claim C4, as stated, fails. \<open>get_geo\<close> does not look at the status of the response: a
  404 whose body is a JSON object gives the fields of that object, not the sentinel. And
  \<open>res.get(key, "N/A")\<close> falls back on the sentinel only for a missing key: an empty or
  null field of the answer stays empty or null.
\<close>

theorem get_geo_counterexample:
  "get_geo ''203.0.113.7'' (Answers 404 (Some (JObj [(str ''country'', JStr (str ''Mordor''))])))
     = Returns \<lparr>country = JStr (str ''Mordor''), city = NA, org = NA\<rparr>
   \<and> get_geo ''203.0.113.7'' (Answers 404 (Some (JObj [(str ''country'', JStr (str ''Mordor''))])))
     \<noteq> Returns sentinel
   \<and> get_geo ''203.0.113.7''
       (Answers 200 (Some (JObj [(str ''country'', JStr (str ''France'')), (str ''city'', JStr []),
          (str ''org'', JNull)])))
     = Returns \<lparr>country = JStr (str ''France''), city = JStr [], org = JNull\<rparr>"
  by (simp add: get_geo_object sentinel_def NA_def str_def)

text \<open>
  Claim C4, amended. For every source IP \<open>get_geo\<close> never raises. It returns the sentinel
  triple when the request raises (the service is out of reach) and when the body of the
  response is not JSON or is JSON but not an object, whatever the status. When the body is
  an object, whatever the status, each field is the value the object has under that key,
  as it is, and the sentinel \<open>"N/A"\<close> when the key is absent. No timeout is passed: when the
  service never answers, \<open>get_geo\<close> does not return.
\<close>

theorem get_geo_total:
  "(\<forall>e. get_geo a svc \<noteq> Raises e)
   \<and> (svc = Unreachable \<longrightarrow> get_geo a svc = Returns sentinel)
   \<and> (\<forall>st. svc = Answers st None \<longrightarrow> get_geo a svc = Returns sentinel)
   \<and> (\<forall>st j. svc = Answers st (Some j) \<and> (\<forall>items. j \<noteq> JObj items)
        \<longrightarrow> get_geo a svc = Returns sentinel)
   \<and> (\<forall>st items. svc = Answers st (Some (JObj items)) \<longrightarrow>
        get_geo a svc
          = Returns \<lparr>country = (case map_of items (str ''country'') of None \<Rightarrow> NA | Some v \<Rightarrow> v),
                     city = (case map_of items (str ''city'') of None \<Rightarrow> NA | Some v \<Rightarrow> v),
                     org = (case map_of items (str ''org'') of None \<Rightarrow> NA | Some v \<Rightarrow> v)\<rparr>)
   \<and> (svc = NoAnswer \<longrightarrow> get_geo a svc = Blocks)"
  using get_geo_never_raises get_geo_Unreachable get_geo_not_json get_geo_no_object
    get_geo_object get_geo_NoAnswer
  by blast

theorem get_geo_total_witness:
  "get_geo ''203.0.113.7'' Unreachable = Returns sentinel
   \<and> get_geo ''203.0.113.7'' (Answers 200 (Some (JObj [(str ''city'', JStr (str ''Lyon''))])))
       = Returns \<lparr>country = NA, city = JStr (str ''Lyon''), org = NA\<rparr>"
  using get_geo_total [of "''203.0.113.7''" Unreachable]
    get_geo_total [of "''203.0.113.7''" "Answers 200 (Some (JObj [(str ''city'', JStr (str ''Lyon''))]))"]
  by (simp add: str_def)


section \<open>Store initialisation\<close>





section \<open>Properties of the event store\<close>




lemma log_event_sent: "sent (snd (log_event env a d g s w)) = sent w"
  by (simp add: log_event_def Let_def)






section \<open>Properties of the connection handler and the listener\<close>

subsection \<open>The steps of the handler\<close>

lemma capture_payload_Resets: "capture_payload Resets = Raises ConnectionResetError"
  by (simp add: capture_payload_def recv_def)

lemma capture_payload_Silent: "capture_payload Silent = Blocks"
  by (simp add: capture_payload_def recv_def client_timeout_def)

lemma capture_payload_Blocks: "capture_payload p = Blocks \<longleftrightarrow> p = Silent"
  by (cases p) (simp_all add: capture_payload_Sends capture_payload_Resets capture_payload_Silent)

lemma get_geo_Blocks: "get_geo a svc = Blocks \<longleftrightarrow> svc = NoAnswer"
proof (cases svc)
  case (Answers st b)
  show ?thesis
  proof (cases b)
    case None
    with Answers show ?thesis by (simp add: get_geo_not_json)
  next
    case (Some j)
    show ?thesis
    proof (cases "\<exists>items. j = JObj items")
      case True
      with Answers Some show ?thesis by (auto simp: get_geo_object)
    next
      case False
      then have "get_geo a (Answers st (Some j)) = Returns sentinel"
        by (intro get_geo_no_object) simp
      with Answers Some show ?thesis by simp
    qed
  qed
next
  case Unreachable
  then show ?thesis by (simp add: get_geo_Unreachable)
next
  case NoAnswer
  then show ?thesis by (simp add: get_geo_NoAnswer)
qed

lemma handle_blacklisted:
  "fst (addr c) \<in> set (BLACKLIST_IPS cfg) \<Longrightarrow>
   handle_connection cfg c w = Finished (close (addr c) (print (Blocked (fst (addr c))) w))"
  by (simp add: handle_connection_def)

lemma handle_whitelisted:
  "fst (addr c) \<notin> set (BLACKLIST_IPS cfg) \<Longrightarrow> fst (addr c) \<in> set (WHITELIST_IPS cfg) \<Longrightarrow>
   handle_connection cfg c w = Finished (close (addr c) (print (Ignored (fst (addr c))) w))"
  by (simp add: handle_connection_def)

lemma handle_capture_raises:
  assumes "fst (addr c) \<notin> set (BLACKLIST_IPS cfg)" and "fst (addr c) \<notin> set (WHITELIST_IPS cfg)"
    and "capture_payload (peer c) = Raises e"
  shows "handle_connection cfg c w = Finished (close (addr c) (print (Error e) w))"
  using assms by (simp add: handle_connection_def failed_def)

lemma handle_capture_blocks:
  assumes "fst (addr c) \<notin> set (BLACKLIST_IPS cfg)" and "fst (addr c) \<notin> set (WHITELIST_IPS cfg)"
    and "capture_payload (peer c) = Blocks"
  shows "handle_connection cfg c w = Stuck w"
  using assms by (simp add: handle_connection_def)

lemma handle_lookup_blocks:
  assumes "fst (addr c) \<notin> set (BLACKLIST_IPS cfg)" and "fst (addr c) \<notin> set (WHITELIST_IPS cfg)"
    and "capture_payload (peer c) = Returns d" and "get_geo (fst (addr c)) (lookup c) = Blocks"
  shows "handle_connection cfg c w = Stuck w"
  using assms by (simp add: handle_connection_def)

lemma handle_log_raises:
  assumes "fst (addr c) \<notin> set (BLACKLIST_IPS cfg)" and "fst (addr c) \<notin> set (WHITELIST_IPS cfg)"
    and "capture_payload (peer c) = Returns d" and "get_geo (fst (addr c)) (lookup c) = Returns g"
    and "log_event c (addr c) d g (is_suspicious d) w = (Some e, w1)"
  shows "handle_connection cfg c w = Finished (close (addr c) (print (Error e) w1))"
  using assms by (simp add: handle_connection_def failed_def)

lemma handle_logged:
  assumes "fst (addr c) \<notin> set (BLACKLIST_IPS cfg)" and "fst (addr c) \<notin> set (WHITELIST_IPS cfg)"
    and "capture_payload (peer c) = Returns d" and "get_geo (fst (addr c)) (lookup c) = Returns g"
    and "log_event c (addr c) d g (is_suspicious d) w = (None, w1)"
  shows "handle_connection cfg c w
     = Finished (close (addr c)
         (if is_suspicious d
          then send_fake_response c (print SuspiciousActivity
                 (print (Data d) (print (Location (city g) (country g) (org g))
                   (print (New (fst (addr c)) (snd (addr c))) w1))))
          else print (Data d) (print (Location (city g) (country g) (org g))
                 (print (New (fst (addr c)) (snd (addr c))) w1))))"
  using assms by (simp add: handle_connection_def Let_def)



lemma failed_fields:
  "json_log (close a (print n w)) = json_log w"
  "db_file (close a (print n w)) = db_file w"
  "sent (close a (print n w)) = sent w"
  "closed (close a (print n w)) = closed w @ [a]"
  "console (close a (print n w)) = console w @ [n]"
  by (simp_all add: close_def print_def)


subsection \<open>Access filter\<close>

text \<open>
  Claim C5. A connection whose source IP is in the deny list or in the allow list is
  closed at once: the handler returns with both sinks as they were, nothing sent, the
  socket closed and one notice printed. The deny list is looked at first: for an IP in the
  deny list the notice is the block notice, whether or not it is in the allow list too.
\<close>

theorem filtered_connection_dropped:
  assumes "fst (addr c) \<in> set (BLACKLIST_IPS cfg) \<or> fst (addr c) \<in> set (WHITELIST_IPS cfg)"
  shows "\<exists>w'. handle_connection cfg c w = Finished w'
           \<and> json_log w' = json_log w \<and> db_file w' = db_file w \<and> sent w' = sent w
           \<and> closed w' = closed w @ [addr c]
           \<and> console w' = console w @
                [if fst (addr c) \<in> set (BLACKLIST_IPS cfg) then Blocked (fst (addr c))
                 else Ignored (fst (addr c))]"
proof (cases "fst (addr c) \<in> set (BLACKLIST_IPS cfg)")
  case True
  then show ?thesis by (simp add: handle_blacklisted failed_fields)
next
  case False
  with assms have "fst (addr c) \<in> set (WHITELIST_IPS cfg)" by simp
  with False show ?thesis by (simp add: handle_whitelisted failed_fields)
qed

theorem filtered_connection_dropped_witness:
  "(\<exists>w'. handle_connection (shipped_config\<lparr>WHITELIST_IPS := [''203.0.113.7''],
                                             BLACKLIST_IPS := [''203.0.113.7'']\<rparr>)
            (connection_from ''203.0.113.7'' (Sends [0x6C, 0x73])) fresh_world = Finished w'
        \<and> json_log w' = [] \<and> db_file w' = db_file fresh_world \<and> sent w' = []
        \<and> closed w' = [(''203.0.113.7'', 51234)] \<and> console w' = [Blocked ''203.0.113.7''])"
  using filtered_connection_dropped [of "connection_from ''203.0.113.7'' (Sends [0x6C, 0x73])"
      "shipped_config\<lparr>WHITELIST_IPS := [''203.0.113.7''], BLACKLIST_IPS := [''203.0.113.7'']\<rparr>"
      fresh_world]
  by (simp add: connection_from_def shipped_config_def fresh_world_def)

subsection \<open>Read failures\<close>





subsection \<open>Blocking steps\<close>

lemma hi_not_suspicious: "\<not> is_suspicious (str ''hi'')"
  by code_simp

lemma capture_hi: "capture_payload (Sends [0x68, 0x69]) = Returns (str ''hi'')"
  by (simp add: capture_payload_Sends utf8_first_def strip_def is_whitespace_def str_def)

text \<open>
  Claim C7, as stated, fails: the source sets no timeout on the socket and passes none to
  \<open>requests.get\<close>. A peer that connects and sends nothing leaves the handler in \<open>recv\<close>
  for ever, and a lookup service that never answers leaves it in \<open>get_geo\<close> for ever.
\<close>

theorem blocking_counterexample:
  "handle_connection shipped_config (connection_from ''203.0.113.7'' Silent) fresh_world
     = Stuck fresh_world
   \<and> handle_connection shipped_config
       ((connection_from ''203.0.113.7'' (Sends [0x68, 0x69])) \<lparr>lookup := NoAnswer\<rparr>) fresh_world
     = Stuck fresh_world"
  by (simp add: handle_connection_def capture_payload_Silent capture_hi get_geo_NoAnswer
      shipped_config_def connection_from_def)

text \<open>
  Claim C7, amended. Neither blocking step of the pipeline has a time bound: the socket
  read is made on a socket without a timeout and the lookup is requested without one
  (with a timeout either call would raise instead of waiting). For a connection that is
  not filtered the handler fails to return exactly when the peer stays silent, or when
  the peer sends and the lookup service never answers; it has then changed nothing.
\<close>

theorem handle_connection_blocks:
  assumes "fst (addr c) \<notin> set (BLACKLIST_IPS cfg)" and "fst (addr c) \<notin> set (WHITELIST_IPS cfg)"
  shows "((\<exists>w'. handle_connection cfg c w = Stuck w')
            \<longleftrightarrow> (peer c = Silent \<or> ((\<exists>bs. peer c = Sends bs) \<and> lookup c = NoAnswer)))
       \<and> (\<forall>w'. handle_connection cfg c w = Stuck w' \<longrightarrow> w' = w)
       \<and> client_timeout = None
       \<and> (\<forall>t n. recv (Some t) n Silent = Raises SocketTimeout)
       \<and> (\<forall>t u. requests_get u (Some t) NoAnswer = Raises RequestsTimeout)"
proof -
  have stuck: "handle_connection cfg c w = Stuck w"
    if "peer c = Silent \<or> ((\<exists>bs. peer c = Sends bs) \<and> lookup c = NoAnswer)"
  proof -
    from that consider "peer c = Silent" | bs where "peer c = Sends bs" "lookup c = NoAnswer"
      by blast
    then show ?thesis
    proof cases
      case 1
      then show ?thesis using assms by (simp add: handle_capture_blocks capture_payload_Silent)
    next
      case 2
      then show ?thesis
        using assms handle_lookup_blocks [of c cfg _ w]
        by (simp add: capture_payload_Sends get_geo_NoAnswer)
    qed
  qed
  have finished: "\<exists>w'. handle_connection cfg c w = Finished w'"
    if "\<not> (peer c = Silent \<or> ((\<exists>bs. peer c = Sends bs) \<and> lookup c = NoAnswer))"
  proof (cases "capture_payload (peer c)")
    case (Returns d)
    have "peer c \<noteq> Silent \<and> peer c \<noteq> Resets"
      using Returns by (auto simp: capture_payload_Silent capture_payload_Resets)
    then have "\<exists>bs. peer c = Sends bs" by (cases "peer c") simp_all
    with that have "lookup c \<noteq> NoAnswer" by blast
    then have nb: "get_geo (fst (addr c)) (lookup c) \<noteq> Blocks" by (simp add: get_geo_Blocks)
    show ?thesis
    proof (cases "get_geo (fst (addr c)) (lookup c)")
      case g: (Returns g)
      show ?thesis
      proof (cases "log_event c (addr c) d g (is_suspicious d) w")
        case (Pair r w1)
        show ?thesis
        proof (cases r)
          case None
          with Pair assms Returns g show ?thesis by (simp add: handle_logged)
        next
          case (Some e)
          with Pair assms Returns g show ?thesis by (simp add: handle_log_raises)
        qed
      qed
    next
      case (Raises e)
      then show ?thesis using get_geo_never_raises by blast
    next
      case Blocks
      with nb show ?thesis by simp
    qed
  next
    case (Raises e)
    with assms show ?thesis by (simp add: handle_capture_raises)
  next
    case Blocks
    then have "peer c = Silent" by (simp add: capture_payload_Blocks)
    with that show ?thesis by simp
  qed
  have iff: "(\<exists>w'. handle_connection cfg c w = Stuck w')
            \<longleftrightarrow> (peer c = Silent \<or> ((\<exists>bs. peer c = Sends bs) \<and> lookup c = NoAnswer))"
  proof
    assume "\<exists>w'. handle_connection cfg c w = Stuck w'"
    then show "peer c = Silent \<or> ((\<exists>bs. peer c = Sends bs) \<and> lookup c = NoAnswer)"
      using finished by fastforce
  next
    assume "peer c = Silent \<or> ((\<exists>bs. peer c = Sends bs) \<and> lookup c = NoAnswer)"
    then show "\<exists>w'. handle_connection cfg c w = Stuck w'" using stuck by blast
  qed
  have same: "\<forall>w'. handle_connection cfg c w = Stuck w' \<longrightarrow> w' = w"
  proof (intro allI impI)
    fix w'
    assume s: "handle_connection cfg c w = Stuck w'"
    then have "peer c = Silent \<or> ((\<exists>bs. peer c = Sends bs) \<and> lookup c = NoAnswer)"
      using iff by blast
    then have "handle_connection cfg c w = Stuck w" by (rule stuck)
    with s show "w' = w" by simp
  qed
  have "\<forall>t n. recv (Some t) n Silent = Raises SocketTimeout" by (simp add: recv_def)
  moreover have "\<forall>t u. requests_get u (Some t) NoAnswer = Raises RequestsTimeout"
    by (simp add: requests_get_def)
  moreover have "client_timeout = None" by (simp add: client_timeout_def)
  ultimately show ?thesis using iff same by blast
qed

theorem handle_connection_blocks_witness:
  "(\<exists>w'. handle_connection shipped_config (connection_from ''203.0.113.7'' Silent) fresh_world
            = Stuck w')
   \<and> \<not> (\<exists>w'. handle_connection shipped_config
            (connection_from ''203.0.113.7'' (Sends [0x68, 0x69])) fresh_world = Stuck w')"
  using handle_connection_blocks [of "connection_from ''203.0.113.7'' Silent" shipped_config fresh_world]
    handle_connection_blocks [of "connection_from ''203.0.113.7'' (Sends [0x68, 0x69])" shipped_config
      fresh_world]
  by (simp add: connection_from_def shipped_config_def)

subsection \<open>The accept loop\<close>

lemma accept_loop_append:
  "accept_loop cfg (cs1 @ cs2) w =
     (case accept_loop cfg cs1 w of
        Finished w1 \<Rightarrow> accept_loop cfg cs2 w1
      | Stuck w1 \<Rightarrow> Stuck w1
      | Crashed e w1 \<Rightarrow> Crashed e w1)"
  by (induction cs1 arbitrary: w) (auto split: run.splits)

lemma handle_hi:
  "handle_connection shipped_config (connection_from a (Sends [0x68, 0x69])) fresh_world
     = Finished (fresh_world
         \<lparr>json_log := [\<lparr>timestamp = ''2024-05-01T12:00:00'', ip = a, port = 51234,
                          data = str ''hi'', geo = sentinel, suspicious = False\<rparr>],
           db_file := Some \<lparr>tables = [''logs''],
                             logs = [\<lparr>row_id = 1, row_timestamp = ''2024-05-01T12:00:00'',
                                      row_ip = a, row_port = 51234, row_data = str ''hi'',
                                      row_country = NA, row_city = NA, row_org = NA,
                                      row_suspicious = 0\<rparr>]\<rparr>,
           console := [New a 51234, Location NA NA NA, Data (str ''hi'')],
           closed := [(a, 51234)]\<rparr>)"
  by (simp add: handle_connection_def capture_hi get_geo_Unreachable hi_not_suspicious
      log_event_def Let_def sqlite_connect_def next_id_def sentinel_def NA_def
      shipped_config_def connection_from_def fresh_world_def close_def print_def)

text \<open>
  Claim C6, as stated, fails: the source has no concurrent execution unit. The handler runs
  in the accept loop, so the loop reads, looks up and writes itself, and a client that
  connects and stays silent stops it: the client behind it, which alone would be handled
  and logged, is never accepted.
\<close>

theorem accept_loop_counterexample:
  "accept_loop shipped_config
     [connection_from ''203.0.113.7'' Silent, connection_from ''198.51.100.9'' (Sends [0x68, 0x69])]
     fresh_world
   = Stuck fresh_world
   \<and> (\<exists>w'. accept_loop shipped_config [connection_from ''198.51.100.9'' (Sends [0x68, 0x69])]
              fresh_world = Finished w'
          \<and> length (json_log w') = 1)"
proof -
  have "handle_connection shipped_config (connection_from ''203.0.113.7'' Silent) fresh_world
      = Stuck fresh_world"
    by (simp add: handle_connection_def capture_payload_Silent shipped_config_def
        connection_from_def)
  then show ?thesis by (simp add: handle_hi)
qed

text \<open>
  Claim C6, amended. The Listener handles every accepted connection inside its single
  accept loop, one after the other in the order of acceptance, and does all the reading,
  looking up and writing there: the connections after a batch are handled from the world
  the batch leaves, and only if every handler of the batch has returned. A handler that
  does not return blocks the loop, whatever connections wait behind it.
\<close>

theorem accept_loop_sequential:
  "accept_loop cfg (cs1 @ cs2) w =
     (case accept_loop cfg cs1 w of
        Finished w1 \<Rightarrow> accept_loop cfg cs2 w1
      | Stuck w1 \<Rightarrow> Stuck w1
      | Crashed e w1 \<Rightarrow> Crashed e w1)
   \<and> accept_loop cfg [c] w = handle_connection cfg c w
   \<and> (\<forall>w1 w2. accept_loop cfg cs1 w = Finished w1 \<and> handle_connection cfg c w1 = Stuck w2 \<longrightarrow>
         accept_loop cfg (cs1 @ c # cs2) w = Stuck w2)"
proof -
  have one: "accept_loop cfg [c] w = handle_connection cfg c w"
    by (cases "handle_connection cfg c w") simp_all
  have "\<forall>w1 w2. accept_loop cfg cs1 w = Finished w1 \<and> handle_connection cfg c w1 = Stuck w2 \<longrightarrow>
         accept_loop cfg (cs1 @ c # cs2) w = Stuck w2"
    by (simp add: accept_loop_append)
  with one accept_loop_append show ?thesis by blast
qed

theorem accept_loop_sequential_witness:
  "accept_loop shipped_config
     ([connection_from ''198.51.100.9'' (Sends [0x68, 0x69])]
      @ connection_from ''203.0.113.7'' Silent # [connection_from ''192.0.2.1'' (Sends [0x68, 0x69])])
     fresh_world
   = Stuck (fresh_world
         \<lparr>json_log := [\<lparr>timestamp = ''2024-05-01T12:00:00'', ip = ''198.51.100.9'', port = 51234,
                          data = str ''hi'', geo = sentinel, suspicious = False\<rparr>],
           db_file := Some \<lparr>tables = [''logs''],
                             logs = [\<lparr>row_id = 1, row_timestamp = ''2024-05-01T12:00:00'',
                                      row_ip = ''198.51.100.9'', row_port = 51234,
                                      row_data = str ''hi'',
                                      row_country = NA, row_city = NA, row_org = NA,
                                      row_suspicious = 0\<rparr>]\<rparr>,
           console := [New ''198.51.100.9'' 51234, Location NA NA NA, Data (str ''hi'')],
           closed := [(''198.51.100.9'', 51234)]\<rparr>)"
proof -
  let ?w1 = "fresh_world
         \<lparr>json_log := [\<lparr>timestamp = ''2024-05-01T12:00:00'', ip = ''198.51.100.9'', port = 51234,
                          data = str ''hi'', geo = sentinel, suspicious = False\<rparr>],
           db_file := Some \<lparr>tables = [''logs''],
                             logs = [\<lparr>row_id = 1, row_timestamp = ''2024-05-01T12:00:00'',
                                      row_ip = ''198.51.100.9'', row_port = 51234,
                                      row_data = str ''hi'',
                                      row_country = NA, row_city = NA, row_org = NA,
                                      row_suspicious = 0\<rparr>]\<rparr>,
           console := [New ''198.51.100.9'' 51234, Location NA NA NA, Data (str ''hi'')],
           closed := [(''198.51.100.9'', 51234)]\<rparr>"
  have a: "accept_loop shipped_config [connection_from ''198.51.100.9'' (Sends [0x68, 0x69])]
             fresh_world = Finished ?w1"
    by (simp add: handle_hi)
  have b: "handle_connection shipped_config (connection_from ''203.0.113.7'' Silent) ?w1 = Stuck ?w1"
    by (simp add: handle_connection_def capture_payload_Silent shipped_config_def
        connection_from_def)
  from a b show ?thesis
    using accept_loop_sequential [of shipped_config
        "[connection_from ''198.51.100.9'' (Sends [0x68, 0x69])]"
        "[connection_from ''192.0.2.1'' (Sends [0x68, 0x69])]" fresh_world
        "connection_from ''203.0.113.7'' Silent"]
    by blast
qed

subsection \<open>Keywords inside words\<close>

lemma send_fake_response_sent:
  "send_ok c \<Longrightarrow> sent (close a (send_fake_response c (print n4 (print n3 (print n2 (print n1 w))))))
     = sent w @ [(addr c, fake)]"
  by (simp add: close_def print_def send_fake_response_def)

text \<open>
  Claim C10. The patterns are not anchored: a payload that contains, anywhere, one of the
  keywords of the patterns (in any case of its letters) is suspicious, as \<open>fish\<close> is for
  its \<open>sh\<close>. When such a payload is captured on a connection that is not filtered, the
  lookup returns and the event is logged, the handler sends the fake reply to a peer that
  still takes it.
\<close>

theorem keyword_inside_word_triggers_reply:
  assumes "kw \<in> set (sql_keywords @ shell_keywords @ traversal_keywords @ tool_keywords)"
    and "same_ignoring_case kw v"
  shows "is_suspicious (pre @ v @ post)
       \<and> (fst (addr c) \<notin> set (BLACKLIST_IPS cfg) \<and> fst (addr c) \<notin> set (WHITELIST_IPS cfg)
            \<and> capture_payload (peer c) = Returns (pre @ v @ post)
            \<and> get_geo (fst (addr c)) (lookup c) = Returns g
            \<and> fst (log_event c (addr c) (pre @ v @ post) g True w) = None
            \<and> send_ok c \<longrightarrow>
          (\<exists>w'. handle_connection cfg c w = Finished w'
             \<and> sent w' = sent w @ [(addr c, fake)]))"
proof (intro conjI impI)
  show sus: "is_suspicious (pre @ v @ post)"
    using assms by (rule keyword_anywhere_suspicious)
  assume h: "fst (addr c) \<notin> set (BLACKLIST_IPS cfg) \<and> fst (addr c) \<notin> set (WHITELIST_IPS cfg)
            \<and> capture_payload (peer c) = Returns (pre @ v @ post)
            \<and> get_geo (fst (addr c)) (lookup c) = Returns g
            \<and> fst (log_event c (addr c) (pre @ v @ post) g True w) = None
            \<and> send_ok c"
  obtain w1 where w1: "log_event c (addr c) (pre @ v @ post) g True w = (None, w1)"
    using h by (cases "log_event c (addr c) (pre @ v @ post) g True w") simp
  then have "sent w1 = sent w"
    using log_event_sent [of c "addr c" "pre @ v @ post" g True w] by simp
  moreover have "handle_connection cfg c w
     = Finished (close (addr c)
          (send_fake_response c (print SuspiciousActivity
                 (print (Data (pre @ v @ post)) (print (Location (city g) (country g) (org g))
                   (print (New (fst (addr c)) (snd (addr c))) w1))))))"
    using h w1 sus handle_logged [of c cfg "pre @ v @ post" g w w1] by simp
  ultimately show "\<exists>w'. handle_connection cfg c w = Finished w'
             \<and> sent w' = sent w @ [(addr c, fake)]"
    using h by (simp add: send_fake_response_sent)
qed

theorem keyword_inside_word_triggers_reply_witness:
  "is_suspicious (str ''fi'' @ str ''sh'' @ [])
   \<and> (\<exists>w'. handle_connection shipped_config
              (connection_from ''203.0.113.7'' (Sends [0x66, 0x69, 0x73, 0x68])) fresh_world
            = Finished w'
          \<and> sent w' = [((''203.0.113.7'', 51234), fake)])"
proof -
  have kw: "''sh'' \<in> set (sql_keywords @ shell_keywords @ traversal_keywords @ tool_keywords)"
    by (simp add: shell_keywords_def)
  have same: "same_ignoring_case ''sh'' (str ''sh'')"
    by (simp add: same_ignoring_case_def str_def ignorecase_eq_def ascii_lower_def)
  have cap: "capture_payload (Sends [0x66, 0x69, 0x73, 0x68]) = Returns (str ''fi'' @ str ''sh'' @ [])"
    by (simp add: capture_payload_Sends utf8_first_def strip_def is_whitespace_def str_def)
  have lg: "fst (log_event (connection_from ''203.0.113.7'' (Sends [0x66, 0x69, 0x73, 0x68]))
       (''203.0.113.7'', 51234) (str ''fi'' @ str ''sh'' @ []) sentinel True fresh_world) = None"
    by (simp add: log_event_def Let_def sqlite_connect_def sentinel_def NA_def
        connection_from_def fresh_world_def)
  show ?thesis
    using keyword_inside_word_triggers_reply [OF kw same, of "str ''fi''" "[]"
        "connection_from ''203.0.113.7'' (Sends [0x66, 0x69, 0x73, 0x68])" shipped_config sentinel
        fresh_world] cap lg get_geo_Unreachable [of "''203.0.113.7''"]
    by (simp add: connection_from_def shipped_config_def fresh_world_def)
qed

end
